theory Spec2Isabelle
  imports Complex_Main
begin

section \<open>The viewport controller of the coordinate viewer\<close>

text \<open>
  The program is a browser script: a handful of global variables and the event handlers
  that mutate them. The embedding follows the most complete variant of the script (the
  one with keyboard control and the overlay canvas). Each handler becomes a function
  from the state before the event to the state after it.

  JavaScript numbers are idealised as real numbers: rounding, infinities and NaN are
  outside the model. The page index only ever takes integer values and is an \<open>int\<close>.
  A handler that dereferences the absent document handle throws a \<open>TypeError\<close>; that is
  the \<open>Inl\<close> branch of its result.
\<close>

subsection \<open>Constants and the coordinate transform\<close>

definition PDF_UNIT_CM :: real where
  "PDF_UNIT_CM = 0.0352778"

definition TT_OFFSET :: real where
  "TT_OFFSET = 8"

text \<open>\<open>Math.hypot(dx, dy)\<close> and \<open>Math.round\<close>.\<close>

definition hypot :: "real \<Rightarrow> real \<Rightarrow> real" where
  "hypot dx dy = sqrt (dx * dx + dy * dy)"

definition Math_round :: "real \<Rightarrow> int" where
  "Math_round v = \<lfloor>v + 1 / 2\<rfloor>"

text \<open>
  The conversion of the pointer handlers: \<open>ptX = x/scale\<close>, shown as \<open>ptX*PDF_UNIT_CM\<close>
  (in the earlier variants written in one expression, \<open>(x_px / scale) * PDF_UNIT_TO_CM\<close>).
\<close>

definition toCm :: "real \<Rightarrow> real \<Rightarrow> real" where
  "toCm v s = (v / s) * PDF_UNIT_CM"

definition toDocumentUnits :: "real \<times> real \<Rightarrow> real \<Rightarrow> real \<times> real" where
  "toDocumentUnits p s = (toCm (fst p) s, toCm (snd p) s)"

text \<open>
  Modelled from the spec: the inverse transform \<open>toPixels\<close>, which no variant of the
  script contains. The specification gives it as
  \<open>toPixels(docPoint, scale) = docPoint / UNIT_TO_CM * scale\<close>, applied to each coordinate.
\<close>

definition toPixels :: "real \<times> real \<Rightarrow> real \<Rightarrow> real \<times> real" where
  "toPixels d s = (fst d / PDF_UNIT_CM * s, snd d / PDF_UNIT_CM * s)"

subsection \<open>Documents, render tasks and the state\<close>

text \<open>
  A decoded document is the list of its pages, each given by its natural width and
  height; \<open>numPages\<close> is the length of the list. \<open>getPage\<close> rejects a page number outside
  \<open>1..numPages\<close>. \<open>getViewport\<close> scales the natural size.
\<close>

type_synonym page = "real \<times> real"
type_synonym doc = "page list"
type_synonym bytes = "nat list"
type_synonym touch = "real \<times> real"

definition numPages :: "doc \<Rightarrow> int" where
  "numPages d = int (length d)"

definition getPage :: "doc \<Rightarrow> int \<Rightarrow> page option" where
  "getPage d n = (if 1 \<le> n \<and> n \<le> numPages d then Some (d ! nat (n - 1)) else None)"

definition getViewport :: "page \<Rightarrow> real \<Rightarrow> real \<times> real" where
  "getViewport p s = (fst p * s, snd p * s)"

text \<open>
  \<open>renderPage\<close> is an asynchronous function with two suspension points. Every call is
  a task, kept in the order of the calls: the document and page number it was called
  with and the point where it stands. After the first suspension point the task holds
  the scale its viewport was computed with. A task whose promise was rejected is
  \<open>Failed\<close>.
\<close>

datatype stage = AwaitPage | AwaitRender real | Done | Failed

record task =
  t_doc :: doc
  t_num :: int
  t_stage :: stage

datatype error = TypeError

text \<open>
  A call of \<open>getDocument\<close> is \<open>Called\<close> until the library sends the data to its worker,
  \<open>Sent\<close> until the promise settles, and then \<open>Resolved\<close> or \<open>Rejected\<close>.
\<close>

datatype lstage = Called | Sent | Resolved | Rejected

record upload =
  f_type :: string
  f_bytes :: bytes

record keyevent =
  key :: string
  altKey :: bool
  ctrlKey :: bool
  shiftKey :: bool

text \<open>
  The state: the script's variables, the parts of the page it reads and writes, and the
  asynchronous work in flight. \<open>heap\<close> holds the byte arrays the script has created,
  by address, each with the bytes it has now; \<open>pdfData\<close> is the address of the array
  the script keeps. \<open>reads\<close> are the file reads started (with a flag once \<open>onload\<close>
  has fired), \<open>loads\<close> the calls of \<open>getDocument\<close> (the value of \<open>keep\<close> captured by
  the call, the address of the array passed, and how far the call has got), \<open>tasks\<close>
  the calls of \<open>renderPage\<close>. The text of the page indicator is kept as the two numbers it
  prints, the coordinate text as the pair of centimetre values before formatting, the
  zoom dropdown as the number last written to it (a dropdown set to a string that is
  none of its options shows no option and parses to NaN, which like NaN itself is
  outside the model). \<open>canvas_content\<close> is the page and
  viewport scale of the render that completed last since the canvas was last resized;
  assigning a canvas width clears the canvas. The rectangle of the canvas has its CSS
  size. The click handler (clipboard and its timer), the wrapper element, the canvas
  transforms and the calls of \<open>preventDefault\<close> are left out.
\<close>

record state =
  pdfDoc :: "doc option"
  pdfData :: "nat option"
  pageNum :: int
  scale :: real
  lastCssX :: real
  lastCssY :: real
  touchStartX :: "real option"
  touchStartDist :: "real option"
  zoomSelect_value :: real
  retainViewport_checked :: bool
  helpOverlay_shown :: bool
  canvas_buf :: "int \<times> int"
  canvas_css :: "real \<times> real"
  canvas_content :: "(int \<times> real) option"
  overlay_buf :: "int \<times> int"
  overlay_cross :: "(real \<times> real) option"
  pageIndicator :: "(int \<times> int) option"
  coordText :: "(real \<times> real) option"
  tooltip_shown :: bool
  tooltip_pos :: "real \<times> real"
  windowScroll :: real
  heap :: "bytes list"
  reads :: "(bytes \<times> bool) list"
  loads :: "(bool \<times> nat \<times> lstage) list"
  tasks :: "task list"
  rejections :: nat

text \<open>
  The environment constants read once at start-up: the device pixel ratio and the zoom
  steps, which the script takes from the options of the dropdown.
\<close>

record env =
  DPR :: real
  zoomSteps :: "real list"

text \<open>
  The state when the script has run: no document, page 1, the scale of the option the
  dropdown shows, a canvas of the default size.
\<close>

definition initial :: "real \<Rightarrow> bool \<Rightarrow> state" where
  "initial z keep =
     \<lparr>pdfDoc = None, pdfData = None, pageNum = 1, scale = z,
      lastCssX = 0, lastCssY = 0, touchStartX = None, touchStartDist = None,
      zoomSelect_value = z, retainViewport_checked = keep, helpOverlay_shown = False,
      canvas_buf = (300, 150), canvas_css = (300, 150), canvas_content = None,
      overlay_buf = (300, 150), overlay_cross = None, pageIndicator = None,
      coordText = None, tooltip_shown = False, tooltip_pos = (0, 0), windowScroll = 0,
      heap = [], reads = [], loads = [], tasks = [], rejections = 0\<rparr>"

subsection \<open>Rendering\<close>

text \<open>
  A call of \<open>renderPage(num)\<close> runs up to \<open>await pdfDoc.getPage(num)\<close>. Without a document
  the dereference throws inside the asynchronous function, which is a rejected promise
  that nobody handles, not an exception in the caller.
\<close>

definition renderPage :: "int \<Rightarrow> state \<Rightarrow> state" where
  "renderPage num s =
     (case pdfDoc s of
        None \<Rightarrow> s\<lparr>rejections := Suc (rejections s)\<rparr>
      | Some d \<Rightarrow> s\<lparr>tasks := tasks s @ [\<lparr>t_doc = d, t_num = num, t_stage = AwaitPage\<rparr>]\<rparr>)"

text \<open>
  Task \<open>k\<close> resumes after \<open>getPage\<close>: the viewport is computed with the scale of that
  moment, both canvases get the buffer size \<open>Math.round(css * DPR)\<close> and the CSS size,
  and \<open>page.render\<close> is started.
\<close>

definition renderPage_resume1 :: "env \<Rightarrow> nat \<Rightarrow> state \<Rightarrow> state" where
  "renderPage_resume1 e k s =
     (if k < length (tasks s) \<and> t_stage (tasks s ! k) = AwaitPage then
        (let t = tasks s ! k in
         case getPage (t_doc t) (t_num t) of
           None \<Rightarrow> s\<lparr>tasks := (tasks s)[k := t\<lparr>t_stage := Failed\<rparr>],
                      rejections := Suc (rejections s)\<rparr>
         | Some p \<Rightarrow>
             (let vp = getViewport p (scale s);
                  cssW = fst vp; cssH = snd vp;
                  buf = (Math_round (cssW * DPR e), Math_round (cssH * DPR e))
              in s\<lparr>canvas_buf := buf, canvas_css := (cssW, cssH), canvas_content := None,
                    overlay_buf := buf, overlay_cross := None,
                    tasks := (tasks s)[k := t\<lparr>t_stage := AwaitRender (scale s)\<rparr>]\<rparr>))
      else s)"

text \<open>
  Task \<open>k\<close> resumes after \<open>page.render(...).promise\<close>: the page is on the canvas, and the
  indicator is written from the variables \<open>pageNum\<close> and \<open>pdfDoc\<close> as they are now.
\<close>

definition renderPage_resume2 :: "nat \<Rightarrow> state \<Rightarrow> state" where
  "renderPage_resume2 k s =
     (if k < length (tasks s) then
        (let t = tasks s ! k in
         case t_stage t of
           AwaitRender vs \<Rightarrow>
             (case pdfDoc s of
                None \<Rightarrow> s\<lparr>canvas_content := Some (t_num t, vs),
                           tasks := (tasks s)[k := t\<lparr>t_stage := Failed\<rparr>],
                           rejections := Suc (rejections s)\<rparr>
              | Some d \<Rightarrow> s\<lparr>canvas_content := Some (t_num t, vs),
                             pageIndicator := Some (pageNum s, numPages d),
                             tasks := (tasks s)[k := t\<lparr>t_stage := Done\<rparr>]\<rparr>)
         | _ \<Rightarrow> s)
      else s)"

subsection \<open>Overlay\<close>

definition updateOverlays :: "real \<Rightarrow> real \<Rightarrow> state \<Rightarrow> state" where
  "updateOverlays cssX cssY s =
     (let x = max 0 (min cssX (fst (canvas_css s)));
          y = max 0 (min cssY (snd (canvas_css s)));
          ptX = x / scale s; ptY = y / scale s
      in s\<lparr>lastCssX := x, lastCssY := y,
            coordText := Some (ptX * PDF_UNIT_CM, ptY * PDF_UNIT_CM),
            tooltip_shown := True, tooltip_pos := (x + TT_OFFSET, y + TT_OFFSET),
            overlay_cross := Some (x, y)\<rparr>)"

definition clearOverlays :: "state \<Rightarrow> state" where
  "clearOverlays s = s\<lparr>tooltip_shown := False, overlay_cross := None\<rparr>"

subsection \<open>Loading\<close>

text \<open>
  \<open>loadPDF(data)\<close> reads the checkbox and calls \<open>getDocument\<close> with the array it is
  given; \<open>loadPDF_then\<close> is the callback of the promise, with the value of \<open>keep\<close> the
  call captured.
\<close>

definition loadPDF :: "nat \<Rightarrow> state \<Rightarrow> state" where
  "loadPDF a s = s\<lparr>loads := loads s @ [(retainViewport_checked s, a, Called)]\<rparr>"

definition loadPDF_then :: "bool \<Rightarrow> doc \<Rightarrow> state \<Rightarrow> state" where
  "loadPDF_then keep d s =
     (let s1 = s\<lparr>pdfDoc := Some d\<rparr>;
          s2 = (if \<not> keep then s1\<lparr>pageNum := 1, scale := zoomSelect_value s1\<rparr> else s1);
          s3 = s2\<lparr>pageNum := min (max 1 (pageNum s2)) (numPages d)\<rparr>;
          s4 = s3\<lparr>zoomSelect_value := scale s3\<rparr>
      in renderPage (pageNum s4) s4)"

text \<open>
  The library (version 4 or later, which the project's notes ask for) does not copy a
  \<open>Uint8Array\<close> it is given: it transfers the array's buffer to its worker, which
  leaves the caller's array detached, with no bytes. \<open>getDocument_sent\<close> is that
  moment for call \<open>k\<close>. An array that has no bytes by then, detached or empty, cannot be
  decoded: the promise is rejected. Only a call whose data was sent can resolve.
\<close>

definition getDocument_sent :: "nat \<Rightarrow> state \<Rightarrow> state" where
  "getDocument_sent k s =
     (if k < length (loads s) \<and> snd (snd (loads s ! k)) = Called then
        (let l = loads s ! k; a = fst (snd l) in
         if heap s ! a = []
         then s\<lparr>loads := (loads s)[k := (fst l, a, Rejected)],
                 rejections := Suc (rejections s)\<rparr>
         else s\<lparr>loads := (loads s)[k := (fst l, a, Sent)], heap := (heap s)[a := []]\<rparr>)
      else s)"

definition getDocument_resolved :: "nat \<Rightarrow> doc \<Rightarrow> state \<Rightarrow> state" where
  "getDocument_resolved k d s =
     (if k < length (loads s) \<and> snd (snd (loads s ! k)) = Sent then
        (let l = loads s ! k
         in loadPDF_then (fst l) d (s\<lparr>loads := (loads s)[k := (fst l, fst (snd l), Resolved)]\<rparr>))
      else s)"

definition getDocument_rejected :: "nat \<Rightarrow> state \<Rightarrow> state" where
  "getDocument_rejected k s =
     (if k < length (loads s)
         \<and> (snd (snd (loads s ! k)) = Called \<or> snd (snd (loads s ! k)) = Sent) then
        (let l = loads s ! k
         in s\<lparr>loads := (loads s)[k := (fst l, fst (snd l), Rejected)],
               rejections := Suc (rejections s)\<rparr>)
      else s)"

text \<open>
  The file input and the drop handler start a \<open>FileReader\<close> for a PDF file and do nothing
  otherwise; \<open>reader_onload\<close> is the reader's callback, which creates the array
  (\<open>new Uint8Array(r.result)\<close>), keeps it in \<open>pdfData\<close> and passes the same array on.
\<close>

definition fileInput_change :: "upload option \<Rightarrow> state \<Rightarrow> state" where
  "fileInput_change f s =
     (case f of
        None \<Rightarrow> s
      | Some u \<Rightarrow> if f_type u \<noteq> ''application/pdf'' then s
                  else s\<lparr>reads := reads s @ [(f_bytes u, False)]\<rparr>)"

definition canvas_drop :: "upload option \<Rightarrow> state \<Rightarrow> state" where
  "canvas_drop f s =
     (case f of
        None \<Rightarrow> s
      | Some u \<Rightarrow> if f_type u = ''application/pdf''
                  then s\<lparr>reads := reads s @ [(f_bytes u, False)]\<rparr> else s)"

definition reader_onload :: "nat \<Rightarrow> state \<Rightarrow> state" where
  "reader_onload k s =
     (if k < length (reads s) \<and> \<not> snd (reads s ! k) then
        (let data = fst (reads s ! k);
             a = length (heap s);
             s1 = s\<lparr>reads := (reads s)[k := (data, True)], heap := heap s @ [data],
                    pdfData := Some a\<rparr>
         in loadPDF a s1)
      else s)"

subsection \<open>Buttons, dropdown and pointer\<close>

definition prevBtn_click :: "state \<Rightarrow> state" where
  "prevBtn_click s =
     (if pageNum s > 1 then renderPage (pageNum s - 1) (s\<lparr>pageNum := pageNum s - 1\<rparr>) else s)"

text \<open>The handler of the next button reads \<open>pdfDoc.numPages\<close> without a test of \<open>pdfDoc\<close>.\<close>

definition nextBtn_click :: "state \<Rightarrow> error + state" where
  "nextBtn_click s =
     (case pdfDoc s of
        None \<Rightarrow> Inl TypeError
      | Some d \<Rightarrow>
          if pageNum s < numPages d
          then Inr (renderPage (pageNum s + 1) (s\<lparr>pageNum := pageNum s + 1\<rparr>))
          else Inr s)"

text \<open>
  The same handler in the two earlier variants that have the zoom dropdown and the
  touch handlers: \<open>if (!pdfDoc || pageNum >= pdfDoc.numPages) return;\<close> and
  \<open>if (pdfDoc && pageNum < pdfDoc.numPages) {...}\<close>.
\<close>

definition nextBtn_click_guarded :: "state \<Rightarrow> error + state" where
  "nextBtn_click_guarded s =
     (case pdfDoc s of
        None \<Rightarrow> Inr s
      | Some d \<Rightarrow>
          if pageNum s \<ge> numPages d then Inr s
          else Inr (renderPage (pageNum s + 1) (s\<lparr>pageNum := pageNum s + 1\<rparr>)))"

text \<open>The browser has set the dropdown to the chosen option when the handler runs.\<close>

definition zoomSelect_change :: "real \<Rightarrow> state \<Rightarrow> state" where
  "zoomSelect_change v s =
     (let s1 = s\<lparr>zoomSelect_value := v\<rparr>;
          s2 = s1\<lparr>scale := zoomSelect_value s1\<rparr>
      in renderPage (pageNum s2) s2)"

text \<open>\<open>mousemove\<close> gets the pointer position and the corner of the canvas rectangle.\<close>

definition mousemove :: "real \<times> real \<Rightarrow> real \<times> real \<Rightarrow> state \<Rightarrow> state" where
  "mousemove client corner s =
     updateOverlays (fst client - fst corner) (snd client - snd corner) s"

subsection \<open>Keyboard\<close>

text \<open>\<open>Array.prototype.indexOf\<close>: the first index of the value, or \<open>-1\<close>.\<close>

fun indexOf :: "real list \<Rightarrow> real \<Rightarrow> int" where
  "indexOf [] v = - 1"
| "indexOf (x # xs) v =
     (if x = v then 0 else (let i = indexOf xs v in if i < 0 then - 1 else i + 1))"

definition arrows :: "string list" where
  "arrows = [''ArrowUp'', ''ArrowDown'', ''ArrowLeft'', ''ArrowRight'']"

definition key_nudge :: "env \<Rightarrow> keyevent \<Rightarrow> state \<Rightarrow> state" where
  "key_nudge e ev s =
     (let s1 =
        (if key ev = ''ArrowUp'' then s\<lparr>lastCssY := max 0 (lastCssY s - 1)\<rparr>
         else if key ev = ''ArrowDown''
           then s\<lparr>lastCssY := min (real_of_int (snd (overlay_buf s)) / DPR e) (lastCssY s + 1)\<rparr>
         else if key ev = ''ArrowLeft'' then s\<lparr>lastCssX := max 0 (lastCssX s - 1)\<rparr>
         else if key ev = ''ArrowRight''
           then s\<lparr>lastCssX := min (real_of_int (fst (overlay_buf s)) / DPR e) (lastCssX s + 1)\<rparr>
         else s)
      in updateOverlays (lastCssX s1) (lastCssY s1) s1)"

definition key_prev :: "state \<Rightarrow> state" where
  "key_prev s =
     (if pageNum s > 1 then renderPage (pageNum s - 1) (s\<lparr>pageNum := pageNum s - 1\<rparr>) else s)"

definition key_next :: "doc \<Rightarrow> state \<Rightarrow> state" where
  "key_next d s =
     (if pageNum s < numPages d
      then renderPage (pageNum s + 1) (s\<lparr>pageNum := pageNum s + 1\<rparr>) else s)"

text \<open>The two zoom branches: \<open>+\<close> or \<open>=\<close> steps up, \<open>-\<close> steps down.\<close>

definition key_zoomIn :: "env \<Rightarrow> state \<Rightarrow> state" where
  "key_zoomIn e s =
     (let idx = indexOf (zoomSteps e) (scale s) in
      if idx \<ge> 0 \<and> idx < int (length (zoomSteps e)) - 1 then
        (let s1 = s\<lparr>scale := zoomSteps e ! nat (idx + 1)\<rparr>;
             s2 = s1\<lparr>zoomSelect_value := scale s1\<rparr>
         in renderPage (pageNum s2) s2)
      else s)"

definition key_zoomOut :: "env \<Rightarrow> state \<Rightarrow> state" where
  "key_zoomOut e s =
     (let idx = indexOf (zoomSteps e) (scale s) in
      if idx > 0 then
        (let s1 = s\<lparr>scale := zoomSteps e ! nat (idx - 1)\<rparr>;
             s2 = s1\<lparr>zoomSelect_value := scale s1\<rparr>
         in renderPage (pageNum s2) s2)
      else s)"

definition key_reload :: "state \<Rightarrow> state" where
  "key_reload s = (case pdfData s of None \<Rightarrow> s | Some a \<Rightarrow> loadPDF a s)"

text \<open>The handler of \<open>keydown\<close>: the first branch that matches returns.\<close>

definition keydown :: "env \<Rightarrow> keyevent \<Rightarrow> state \<Rightarrow> state" where
  "keydown e ev s =
     (if key ev = ''Escape'' \<and> helpOverlay_shown s then s\<lparr>helpOverlay_shown := False\<rparr>
      else case pdfDoc s of
        None \<Rightarrow> s
      | Some d \<Rightarrow>
          if key ev \<in> set (arrows @ [''PageUp'', ''PageDown'']) \<and> \<not> altKey ev then
            (if ctrlKey ev \<and> (key ev = ''ArrowUp'' \<or> key ev = ''ArrowDown'')
             then s\<lparr>windowScroll := windowScroll s + (if key ev = ''ArrowUp'' then - 40 else 40)\<rparr>
             else s)
          else if altKey ev \<and> \<not> ctrlKey ev \<and> \<not> shiftKey ev \<and> key ev \<in> set arrows then
            key_nudge e ev s
          else if (\<not> altKey ev \<and> \<not> shiftKey ev \<and> (key ev = ''p'' \<or> key ev = ''P''))
                  \<or> (ctrlKey ev \<and> key ev = ''ArrowLeft'') then
            key_prev s
          else if (\<not> altKey ev \<and> \<not> shiftKey ev \<and> (key ev = ''n'' \<or> key ev = ''N''))
                  \<or> (ctrlKey ev \<and> key ev = ''ArrowRight'') then
            key_next d s
          else if key ev = ''+'' \<or> key ev = ''='' then key_zoomIn e s
          else if key ev = ''-'' then key_zoomOut e s
          else if \<not> altKey ev \<and> \<not> ctrlKey ev \<and> \<not> shiftKey ev \<and> (key ev = ''r'' \<or> key ev = ''R'')
            then key_reload s
          else if \<not> altKey ev \<and> \<not> ctrlKey ev \<and> \<not> shiftKey ev \<and> (key ev = ''h'' \<or> key ev = ''H'')
            then s\<lparr>helpOverlay_shown := True\<rparr>
          else s)"

text \<open>A key pressed alone.\<close>

definition plain :: "string \<Rightarrow> keyevent" where
  "plain k = \<lparr>key = k, altKey = False, ctrlKey = False, shiftKey = False\<rparr>"

subsection \<open>Touch\<close>

text \<open>
  The two variables of the touch handlers are \<open>touchStartX\<close> and \<open>touchStartDist\<close>. A
  touch is its \<open>clientX\<close> and \<open>clientY\<close>. \<open>touchStartDist\<close> is tested for truthiness:
  neither \<open>null\<close> nor zero.
\<close>

definition touch_dist :: "touch list \<Rightarrow> real" where
  "touch_dist ts =
     (let dx = fst (ts ! 0) - fst (ts ! 1); dy = snd (ts ! 0) - snd (ts ! 1)
      in hypot dx dy)"

definition touchstart :: "touch list \<Rightarrow> state \<Rightarrow> state" where
  "touchstart ts s =
     (if length ts = 1 then s\<lparr>touchStartX := Some (fst (ts ! 0))\<rparr>
      else if length ts = 2 then s\<lparr>touchStartDist := Some (touch_dist ts)\<rparr>
      else s)"

definition pinch_zoom :: "real \<Rightarrow> real \<Rightarrow> state \<Rightarrow> state" where
  "pinch_zoom newScale newDist s =
     (let s1 = s\<lparr>scale := newScale\<rparr>;
          s2 = s1\<lparr>zoomSelect_value := scale s1\<rparr>;
          s3 = renderPage (pageNum s2) s2
      in s3\<lparr>touchStartDist := Some newDist\<rparr>)"

definition touchmove :: "touch list \<Rightarrow> state \<Rightarrow> state" where
  "touchmove ts s =
     (case touchStartDist s of
        None \<Rightarrow> s
      | Some b \<Rightarrow>
          if length ts = 2 \<and> b \<noteq> 0 then
            (let newDist = touch_dist ts; ratio = newDist / b in
             if ratio > 1.1 then pinch_zoom (scale s * 1.1) newDist s
             else if ratio < 0.9 then pinch_zoom (scale s / 1.1) newDist s
             else s)
          else s)"

definition touch_reset :: "state \<Rightarrow> state" where
  "touch_reset s = s\<lparr>touchStartX := None, touchStartDist := None\<rparr>"

text \<open>
  \<open>touchend\<close> reads \<open>pdfDoc.numPages\<close> only when the first test has failed and
  \<open>dx < -50\<close>; without a document that read throws, before the two variables are reset.
\<close>

definition touchend :: "touch list \<Rightarrow> state \<Rightarrow> error + state" where
  "touchend cs s =
     (case touchStartX s of
        None \<Rightarrow> Inr (touch_reset s)
      | Some x0 \<Rightarrow>
          if length cs = 1 then
            (let dx = fst (cs ! 0) - x0 in
             if dx > 50 \<and> pageNum s > 1
               then Inr (touch_reset (renderPage (pageNum s - 1) (s\<lparr>pageNum := pageNum s - 1\<rparr>)))
             else if dx < - 50 then
               (case pdfDoc s of
                  None \<Rightarrow> Inl TypeError
                | Some d \<Rightarrow>
                    if pageNum s < numPages d
                    then Inr (touch_reset
                                (renderPage (pageNum s + 1) (s\<lparr>pageNum := pageNum s + 1\<rparr>)))
                    else Inr (touch_reset s))
             else Inr (touch_reset s))
          else Inr (touch_reset s))"

subsection \<open>Events\<close>

text \<open>
  Everything that can happen to the script: the user's actions and the completions of
  asynchronous work, which name the read, load or task that completes. An exception
  that escapes a handler ends that handler only; both handlers that can throw do so
  before they have changed anything, so the state stays as it was.
\<close>

datatype event =
    FileInputChange "upload option"
  | CanvasDrop "upload option"
  | ReaderOnload nat
  | GetDocumentSent nat
  | GetDocumentResolved nat doc
  | GetDocumentRejected nat
  | GetPageSettled nat
  | RenderSettled nat
  | PrevClick
  | NextClick
  | ZoomSelectChange real
  | RetainViewportSet bool
  | MouseMove "real \<times> real" "real \<times> real"
  | MouseLeave
  | HelpBtnClick
  | HelpOverlayClick
  | KeyDown keyevent
  | TouchStart "touch list"
  | TouchMove "touch list"
  | TouchEnd "touch list"

fun handle :: "env \<Rightarrow> event \<Rightarrow> state \<Rightarrow> error + state" where
  "handle e (FileInputChange f) s = Inr (fileInput_change f s)"
| "handle e (CanvasDrop f) s = Inr (canvas_drop f s)"
| "handle e (ReaderOnload k) s = Inr (reader_onload k s)"
| "handle e (GetDocumentSent k) s = Inr (getDocument_sent k s)"
| "handle e (GetDocumentResolved k d) s = Inr (getDocument_resolved k d s)"
| "handle e (GetDocumentRejected k) s = Inr (getDocument_rejected k s)"
| "handle e (GetPageSettled k) s = Inr (renderPage_resume1 e k s)"
| "handle e (RenderSettled k) s = Inr (renderPage_resume2 k s)"
| "handle e PrevClick s = Inr (prevBtn_click s)"
| "handle e NextClick s = nextBtn_click s"
| "handle e (ZoomSelectChange v) s = Inr (zoomSelect_change v s)"
| "handle e (RetainViewportSet b) s = Inr (s\<lparr>retainViewport_checked := b\<rparr>)"
| "handle e (MouseMove c r) s = Inr (mousemove c r s)"
| "handle e MouseLeave s = Inr (clearOverlays s)"
| "handle e HelpBtnClick s = Inr (s\<lparr>helpOverlay_shown := True\<rparr>)"
| "handle e HelpOverlayClick s = Inr (s\<lparr>helpOverlay_shown := False\<rparr>)"
| "handle e (KeyDown ev) s = Inr (keydown e ev s)"
| "handle e (TouchStart ts) s = Inr (touchstart ts s)"
| "handle e (TouchMove ts) s = Inr (touchmove ts s)"
| "handle e (TouchEnd cs) s = touchend cs s"

definition step :: "env \<Rightarrow> event \<Rightarrow> state \<Rightarrow> state" where
  "step e ev s = (case handle e ev s of Inl err \<Rightarrow> s | Inr s' \<Rightarrow> s')"

fun run :: "env \<Rightarrow> event list \<Rightarrow> state \<Rightarrow> state" where
  "run e [] s = s"
| "run e (ev # evs) s = run e evs (step e ev s)"

subsection \<open>Notions of the specification\<close>

text \<open>
  The page index is in range: without a document it is 1, with a document it lies in
  \<open>[1, numPages]\<close>. A decoded document that reaches the script has at least one page.
\<close>

definition page_in_range :: "state \<Rightarrow> bool" where
  "page_in_range s =
     (case pdfDoc s of
        None \<Rightarrow> pageNum s = 1
      | Some d \<Rightarrow> 1 \<le> pageNum s \<and> pageNum s \<le> numPages d)"

fun doc_ok :: "event \<Rightarrow> bool" where
  "doc_ok (GetDocumentResolved k d) = (1 \<le> numPages d)"
| "doc_ok ev = True"


text \<open>
  The calls of \<open>getDocument\<close> are in order: every address is that of an array the script
  created, and the array of a call whose data was sent has no bytes left.
\<close>

definition loads_ok :: "state \<Rightarrow> bool" where
  "loads_ok s =
     ((case pdfData s of None \<Rightarrow> True | Some a \<Rightarrow> a < length (heap s))
      \<and> list_all (\<lambda>l. fst (snd l) < length (heap s)
                      \<and> (snd (snd l) = Called \<or> snd (snd l) = Rejected
                           \<or> heap s ! fst (snd l) = [])) (loads s))"

text \<open>
  Modelled from the spec: the zoom step set, "a fixed ordered sequence of allowed
  discrete scale values, ascending, duplicate-free". The values are the options of the
  dropdown in the page markup, which is not among the sources; the script only reads them.
\<close>

definition zoom_step_set :: "real list \<Rightarrow> bool" where
  "zoom_step_set zs = (sorted zs \<and> distinct zs)"

text \<open>
  In the words of the specification: the number of times the ratio of the current
  distance to the baseline of the last reset exceeds 1.1 along a sequence of distances,
  and the baseline left at the end.
\<close>

fun crossings :: "real \<Rightarrow> real list \<Rightarrow> nat" where
  "crossings b [] = 0"
| "crossings b (d # ds) = (if d / b > 1.1 then Suc (crossings d ds) else crossings b ds)"

fun last_reset :: "real \<Rightarrow> real list \<Rightarrow> real" where
  "last_reset b [] = b"
| "last_reset b (d # ds) = (if d / b > 1.1 then last_reset d ds else last_reset b ds)"

subsection \<open>A concrete session\<close>

text \<open>
  A five-page document of A4 pages, opened through the file input on a display of pixel
  ratio 2 with the dropdown at 150 percent and the retain option unchecked; the zoom
  steps run from 50 to 300 percent.
\<close>

definition demo_env :: env where
  "demo_env = \<lparr>DPR = 2, zoomSteps = [0.5, 0.75, 1, 1.5, 2, 3]\<rparr>"

definition demo_doc :: doc where
  "demo_doc = replicate 5 (595, 842)"

definition demo_upload :: upload where
  "demo_upload = \<lparr>f_type = ''application/pdf'', f_bytes = [37, 80, 68, 70]\<rparr>"

definition demo_loaded :: state where
  "demo_loaded =
     run demo_env
       [FileInputChange (Some demo_upload), ReaderOnload 0, GetDocumentSent 0,
        GetDocumentResolved 0 demo_doc, GetPageSettled 0, RenderSettled 0]
       (initial 1.5 False)"

text \<open>
  The same session after two presses of the next button, each rendered: page 3 is shown.
  And the first session after two fingers have touched the canvas 100 pixels apart,
  with three move events that spread them to 105, 115 and 120 pixels.
\<close>

definition demo_page3 :: state where
  "demo_page3 =
     run demo_env
       [NextClick, GetPageSettled 1, RenderSettled 1, NextClick, GetPageSettled 2, RenderSettled 2]
       demo_loaded"

definition demo_pinch :: state where
  "demo_pinch = run demo_env [TouchStart [(100, 100), (200, 100)]] demo_loaded"

definition demo_moves :: "touch list list" where
  "demo_moves =
     [(100, 100), (205, 100)] # [(100, 100), (215, 100)] # [(100, 100), (220, 100)] # []"

section \<open>Properties\<close>

subsection \<open>Auxiliary facts\<close>

lemmas demo_defs = demo_loaded_def demo_env_def demo_doc_def demo_upload_def initial_def
  demo_page3_def demo_pinch_def demo_moves_def

lemmas handler_defs = step_def fileInput_change_def reader_onload_def loadPDF_def
  getDocument_sent_def getDocument_resolved_def getDocument_rejected_def loadPDF_then_def renderPage_def numPages_def
  nextBtn_click_def prevBtn_click_def touchstart_def touchmove_def touchend_def
  touch_reset_def touch_dist_def pinch_zoom_def keydown_def key_zoomIn_def key_zoomOut_def
  key_prev_def key_next_def key_reload_def plain_def arrows_def
  renderPage_resume1_def renderPage_resume2_def getPage_def getViewport_def Math_round_def

lemma hypot_0 [simp]: "hypot dx 0 = \<bar>dx\<bar>"
  by (simp add: hypot_def)

lemma renderPage_frame [simp]:
  "pageNum (renderPage n s) = pageNum s"
  "pdfDoc (renderPage n s) = pdfDoc s"
  "pdfData (renderPage n s) = pdfData s"
  "scale (renderPage n s) = scale s"
  "touchStartX (renderPage n s) = touchStartX s"
  "touchStartDist (renderPage n s) = touchStartDist s"
  "zoomSelect_value (renderPage n s) = zoomSelect_value s"
  "retainViewport_checked (renderPage n s) = retainViewport_checked s"
  "loads (renderPage n s) = loads s"
  "heap (renderPage n s) = heap s"
  by (simp_all add: renderPage_def split: option.splits)

lemma renderPage_tasks:
  "pdfDoc s = Some d \<Longrightarrow>
   tasks (renderPage n s) = tasks s @ [\<lparr>t_doc = d, t_num = n, t_stage = AwaitPage\<rparr>]"
  by (simp add: renderPage_def)

lemma updateOverlays_frame [simp]:
  "pageNum (updateOverlays x y s) = pageNum s"
  "pdfDoc (updateOverlays x y s) = pdfDoc s"
  by (simp_all add: updateOverlays_def Let_def)

lemma updateOverlays_coordText:
  assumes "0 \<le> x" "x \<le> fst (canvas_css s)" "0 \<le> y" "y \<le> snd (canvas_css s)"
  shows "coordText (updateOverlays x y s) = Some (toDocumentUnits (x, y) (scale s))"
  using assms by (simp add: updateOverlays_def toDocumentUnits_def toCm_def Let_def)

text \<open>The handler of \<open>keydown\<close> ends in one of its branches.\<close>

lemma keydown_cases:
  assumes "P s" "\<And>b. P (s\<lparr>helpOverlay_shown := b\<rparr>)" "\<And>w. P (s\<lparr>windowScroll := w\<rparr>)"
    "P (key_nudge e ev s)" "P (key_prev s)" "\<And>d. pdfDoc s = Some d \<Longrightarrow> P (key_next d s)"
    "P (key_zoomIn e s)" "P (key_zoomOut e s)" "P (key_reload s)"
  shows "P (keydown e ev s)"
proof (cases "pdfDoc s")
  case None
  then show ?thesis using assms(1,2) by (simp add: keydown_def)
next
  case (Some d)
  then show ?thesis
    using assms(1-5) assms(6) [OF Some] assms(7-9) by (simp add: keydown_def)
qed

lemma keydown_p:
  "key ev = ''p'' \<or> key ev = ''P'' \<Longrightarrow> \<not> altKey ev \<Longrightarrow> \<not> shiftKey ev \<Longrightarrow>
   keydown e ev s = (if pdfDoc s = None then s else key_prev s)"
  by (elim disjE; cases "pdfDoc s"; simp add: keydown_def arrows_def)

lemma keydown_n:
  "key ev = ''n'' \<or> key ev = ''N'' \<Longrightarrow> \<not> altKey ev \<Longrightarrow> \<not> shiftKey ev \<Longrightarrow>
   keydown e ev s = (case pdfDoc s of None \<Rightarrow> s | Some d \<Rightarrow> key_next d s)"
  by (elim disjE; cases "pdfDoc s"; simp add: keydown_def arrows_def)

lemma keydown_plus:
  "key ev = ''+'' \<or> key ev = ''='' \<Longrightarrow>
   keydown e ev s = (if pdfDoc s = None then s else key_zoomIn e s)"
  by (elim disjE; cases "pdfDoc s"; simp add: keydown_def arrows_def)

lemma keydown_minus:
  "key ev = ''-'' \<Longrightarrow> keydown e ev s = (if pdfDoc s = None then s else key_zoomOut e s)"
  by (cases "pdfDoc s") (simp_all add: keydown_def arrows_def)


text \<open>\<open>indexOf\<close> finds a member, and the member at an index of a duplicate-free list.\<close>

lemma indexOf_notin: "v \<notin> set xs \<Longrightarrow> indexOf xs v = - 1"
  by (induction xs) (auto simp: Let_def)

lemma indexOf_nth: "distinct xs \<Longrightarrow> i < length xs \<Longrightarrow> indexOf xs (xs ! i) = int i"
proof (induction xs arbitrary: i)
  case Nil
  then show ?case by simp
next
  case (Cons x xs)
  show ?case
  proof (cases i)
    case 0
    then show ?thesis by simp
  next
    case (Suc j)
    with Cons.prems have j: "j < length xs" and nx: "xs ! j \<noteq> x" and d: "distinct xs"
      by auto
    from Cons.IH [OF d j] show ?thesis
      using Suc nx by (simp add: Let_def)
  qed
qed

subsection \<open>The claims\<close>


text \<open>
  C1. For every pixel offset \<open>p\<close> and every scale \<open>s > 0\<close>, converting \<open>p\<close> to document
  units with the script's formula and back with \<open>toPixels\<close> yields \<open>p\<close> again, exactly,
  over the reals. Offsets with non-negative coordinates are a special case; for those
  inside the canvas the document units are the coordinates that \<open>updateOverlays\<close>
  shows.
\<close>

theorem toPixels_toDocumentUnits:
  assumes "0 < s"
  shows "toPixels (toDocumentUnits p s) s = p
    \<and> (scale st = s \<and> 0 \<le> fst p \<and> fst p \<le> fst (canvas_css st)
          \<and> 0 \<le> snd p \<and> snd p \<le> snd (canvas_css st) \<longrightarrow>
        coordText (updateOverlays (fst p) (snd p) st) = Some (toDocumentUnits p s))"
proof -
  have u: "PDF_UNIT_CM \<noteq> 0"
    by (simp add: PDF_UNIT_CM_def)
  have "v / s * PDF_UNIT_CM / PDF_UNIT_CM * s = v" for v
    using assms u by simp
  then have "toPixels (toDocumentUnits p s) s = p"
    by (simp add: toPixels_def toDocumentUnits_def toCm_def)
  then show ?thesis
    using updateOverlays_coordText [of "fst p" st "snd p"] by simp
qed

theorem toPixels_toDocumentUnits_witness:
  "(0::real) < 3 / 2 \<and> toPixels (toDocumentUnits (108, 72) (3 / 2)) (3 / 2) = (108, 72)
   \<and> scale demo_loaded = 3 / 2 \<and> canvas_css demo_loaded = (892.5, 1263)
   \<and> coordText (updateOverlays 108 72 demo_loaded) = Some (toDocumentUnits (108, 72) (3 / 2))
   \<and> toDocumentUnits (108, 72) (3 / 2) = (2.5400016, 1.6933344)"
proof -
  have a: "scale demo_loaded = 3 / 2" "canvas_css demo_loaded = (892.5, 1263)"
    by (simp_all add: demo_defs handler_defs Let_def)
  have b: "toDocumentUnits (108, 72) (3 / 2) = (2.5400016, 1.6933344)"
    by (simp add: toDocumentUnits_def toCm_def PDF_UNIT_CM_def)
  show ?thesis
    using toPixels_toDocumentUnits [of "3 / 2" "(108, 72)" demo_loaded] a b by simp
qed

text \<open>Facts for the page index.\<close>

lemma page_in_range_cong:
  "page_in_range s \<Longrightarrow> pdfDoc s' = pdfDoc s \<Longrightarrow> pageNum s' = pageNum s \<Longrightarrow> page_in_range s'"
  by (simp add: page_in_range_def split: option.splits)

lemma key_nudge_frame [simp]:
  "pageNum (key_nudge e ev s) = pageNum s"
  "pdfDoc (key_nudge e ev s) = pdfDoc s"
  by (simp_all add: key_nudge_def Let_def)

lemma key_zoom_frame [simp]:
  "pageNum (key_zoomIn e s) = pageNum s"
  "pdfDoc (key_zoomIn e s) = pdfDoc s"
  "pageNum (key_zoomOut e s) = pageNum s"
  "pdfDoc (key_zoomOut e s) = pdfDoc s"
  by (simp_all add: key_zoomIn_def key_zoomOut_def Let_def)

lemma key_reload_frame [simp]:
  "pageNum (key_reload s) = pageNum s"
  "pdfDoc (key_reload s) = pdfDoc s"
  by (simp_all add: key_reload_def loadPDF_def split: option.splits)

lemma key_prev_range: "page_in_range s \<Longrightarrow> page_in_range (key_prev s)"
  by (auto simp: key_prev_def page_in_range_def split: option.splits)

lemma key_next_range:
  "page_in_range s \<Longrightarrow> pdfDoc s = Some d \<Longrightarrow> page_in_range (key_next d s)"
  by (auto simp: key_next_def page_in_range_def split: option.splits)

lemma keydown_range: "page_in_range s \<Longrightarrow> page_in_range (keydown e ev s)"
proof (rule keydown_cases)
  assume r: "page_in_range s"
  show "page_in_range s" by (rule r)
  show "page_in_range (s\<lparr>helpOverlay_shown := b\<rparr>)" for b
    by (rule page_in_range_cong [OF r]) simp_all
  show "page_in_range (s\<lparr>windowScroll := w\<rparr>)" for w
    by (rule page_in_range_cong [OF r]) simp_all
  show "page_in_range (key_nudge e ev s)"
    by (rule page_in_range_cong [OF r]) simp_all
  show "page_in_range (key_zoomIn e s)"
    by (rule page_in_range_cong [OF r]) simp_all
  show "page_in_range (key_zoomOut e s)"
    by (rule page_in_range_cong [OF r]) simp_all
  show "page_in_range (key_reload s)"
    by (rule page_in_range_cong [OF r]) simp_all
  show "page_in_range (key_prev s)"
    by (rule key_prev_range [OF r])
  show "page_in_range (key_next d s)" if "pdfDoc s = Some d" for d
    by (rule key_next_range [OF r that])
qed

lemma loadPDF_then_range: "1 \<le> numPages d \<Longrightarrow> page_in_range (loadPDF_then keep d s)"
  by (simp add: loadPDF_then_def page_in_range_def Let_def)

lemma touchend_range: "page_in_range s \<Longrightarrow> page_in_range (step e (TouchEnd cs) s)"
  by (auto simp: step_def touchend_def touch_reset_def page_in_range_def Let_def
      split: option.splits)

lemma step_range: "page_in_range s \<Longrightarrow> doc_ok ev \<Longrightarrow> page_in_range (step e ev s)"
proof (cases ev)
  case (GetDocumentResolved k d)
  assume "page_in_range s" "doc_ok ev"
  then show ?thesis
    using GetDocumentResolved loadPDF_then_range [of d]
    by (simp add: step_def getDocument_resolved_def Let_def)
next
  case (KeyDown ke)
  assume "page_in_range s"
  then show ?thesis using KeyDown by (simp add: step_def keydown_range)
next
  case (TouchEnd cs)
  assume "page_in_range s"
  then show ?thesis using TouchEnd by (simp add: touchend_range)
next
  case NextClick
  assume "page_in_range s"
  then show ?thesis using NextClick
    by (auto simp: step_def nextBtn_click_def page_in_range_def split: option.splits)
next
  case PrevClick
  assume "page_in_range s"
  then show ?thesis using PrevClick
    by (auto simp: step_def prevBtn_click_def page_in_range_def split: option.splits)
qed (auto simp: step_def page_in_range_def fileInput_change_def canvas_drop_def
      reader_onload_def loadPDF_def getDocument_sent_def getDocument_rejected_def
      renderPage_resume1_def
      renderPage_resume2_def zoomSelect_change_def mousemove_def clearOverlays_def
      touchstart_def touchmove_def pinch_zoom_def Let_def
      split: option.splits stage.splits)

lemma run_range:
  "page_in_range s \<Longrightarrow> \<forall>ev\<in>set evs. doc_ok ev \<Longrightarrow> page_in_range (run e evs s)"
  by (induction evs arbitrary: s) (simp_all add: step_range)

lemma swipe_first_page:
  assumes "touchStartX s = Some x0" "pageNum s = 1" "fst c - x0 > 50"
  shows "step e (TouchEnd [c]) s = touch_reset s"
  using assms by (simp add: step_def touchend_def Let_def)

lemma swipe_last_page:
  assumes "touchStartX s = Some x0" "pdfDoc s = Some d" "pageNum s = numPages d"
    "fst c - x0 < - 50"
  shows "step e (TouchEnd [c]) s = touch_reset s"
  using assms by (simp add: step_def touchend_def Let_def)

text \<open>
  C2. From a state whose page index is in range (in particular one with a loaded
  document of at least one page), after every finite sequence of events in which each
  decoded document has at least one page, the page index is an integer in
  \<open>[1, numPages]\<close>. A request that would leave the range changes nothing: on page 1 the
  previous button and the key \<open>p\<close> leave the state as it is and a swipe to the right
  only ends the touch session; on the last page the same holds for the next button, the
  key \<open>n\<close> and a swipe to the left.
\<close>

theorem page_index_in_range:
  assumes "page_in_range s" and "\<forall>ev\<in>set evs. doc_ok ev"
  shows "page_in_range (run e evs s)
    \<and> (pageNum (run e evs s) = 1 \<longrightarrow>
          step e PrevClick (run e evs s) = run e evs s
        \<and> step e (KeyDown (plain ''p'')) (run e evs s) = run e evs s
        \<and> (\<forall>x0 c. touchStartX (run e evs s) = Some x0 \<and> fst c - x0 > 50 \<longrightarrow>
              step e (TouchEnd [c]) (run e evs s) = touch_reset (run e evs s)))
    \<and> (\<forall>d. pdfDoc (run e evs s) = Some d \<and> pageNum (run e evs s) = numPages d \<longrightarrow>
          step e NextClick (run e evs s) = run e evs s
        \<and> step e (KeyDown (plain ''n'')) (run e evs s) = run e evs s
        \<and> (\<forall>x0 c. touchStartX (run e evs s) = Some x0 \<and> fst c - x0 < - 50 \<longrightarrow>
              step e (TouchEnd [c]) (run e evs s) = touch_reset (run e evs s)))"
proof -
  define s' where "s' = run e evs s"
  have 1: "page_in_range s'"
    unfolding s'_def using assms by (rule run_range)
  have 2: "step e PrevClick s' = s'" "step e (KeyDown (plain ''p'')) s' = s'"
    if "pageNum s' = 1"
    using that by (simp_all add: step_def prevBtn_click_def keydown_p plain_def key_prev_def)
  have 3: "step e NextClick s' = s'" "step e (KeyDown (plain ''n'')) s' = s'"
    if "pdfDoc s' = Some d" "pageNum s' = numPages d" for d
    using that by (simp_all add: step_def nextBtn_click_def keydown_n plain_def key_next_def)
  show ?thesis
    unfolding s'_def [symmetric]
    using 1 2 3 swipe_first_page [of s'] swipe_last_page [of s'] by blast
qed

theorem page_index_in_range_witness:
  "page_in_range demo_loaded
   \<and> list_all doc_ok [NextClick, PrevClick, PrevClick, TouchStart [(100, 0)]]
   \<and> page_in_range (run demo_env [NextClick, PrevClick, PrevClick, TouchStart [(100, 0)]] demo_loaded)
   \<and> pageNum (run demo_env [NextClick, PrevClick, PrevClick, TouchStart [(100, 0)]] demo_loaded) = 1
   \<and> step demo_env PrevClick
        (run demo_env [NextClick, PrevClick, PrevClick, TouchStart [(100, 0)]] demo_loaded)
      = run demo_env [NextClick, PrevClick, PrevClick, TouchStart [(100, 0)]] demo_loaded
   \<and> step demo_env (TouchEnd [(160, 0)])
        (run demo_env [NextClick, PrevClick, PrevClick, TouchStart [(100, 0)]] demo_loaded)
      = touch_reset
          (run demo_env [NextClick, PrevClick, PrevClick, TouchStart [(100, 0)]] demo_loaded)
   \<and> list_all doc_ok [NextClick, KeyDown (plain ''n'')]
   \<and> pdfDoc (run demo_env [NextClick, KeyDown (plain ''n'')] demo_page3) = Some demo_doc
   \<and> pageNum (run demo_env [NextClick, KeyDown (plain ''n'')] demo_page3) = numPages demo_doc
   \<and> step demo_env NextClick (run demo_env [NextClick, KeyDown (plain ''n'')] demo_page3)
      = run demo_env [NextClick, KeyDown (plain ''n'')] demo_page3"
proof -
  let ?evs = "[NextClick, PrevClick, PrevClick, TouchStart [(100, 0)]]"
  let ?evs2 = "[NextClick, KeyDown (plain ''n'')]"
  have a: "page_in_range demo_loaded" "page_in_range demo_page3"
    by (simp_all add: page_in_range_def demo_defs handler_defs Let_def)
  have b: "\<forall>ev\<in>set ?evs. doc_ok ev" "\<forall>ev\<in>set ?evs2. doc_ok ev"
    by simp_all
  have c: "pageNum (run demo_env ?evs demo_loaded) = 1"
    by (simp add: demo_defs handler_defs Let_def)
  have d: "touchStartX (run demo_env ?evs demo_loaded) = Some 100
      \<and> fst (160::real, 0::real) - 100 > 50"
    by (simp add: demo_defs handler_defs Let_def)
  have e: "pdfDoc (run demo_env ?evs2 demo_page3) = Some demo_doc"
    "pageNum (run demo_env ?evs2 demo_page3) = numPages demo_doc"
    by (simp_all add: demo_defs handler_defs Let_def)
  from page_index_in_range [OF a(1) b(1), of demo_env] c d
  have "page_in_range (run demo_env ?evs demo_loaded)"
    and "step demo_env PrevClick (run demo_env ?evs demo_loaded) = run demo_env ?evs demo_loaded"
    and "step demo_env (TouchEnd [(160, 0)]) (run demo_env ?evs demo_loaded)
          = touch_reset (run demo_env ?evs demo_loaded)"
    by blast+
  moreover from page_index_in_range [OF a(2) b(2), of demo_env] e
  have "step demo_env NextClick (run demo_env ?evs2 demo_page3) = run demo_env ?evs2 demo_page3"
    by blast
  ultimately show ?thesis
    using a b c e by (simp add: list_all_iff)
qed

text \<open>Facts for the zoom steps.\<close>

lemma key_zoomIn_member:
  assumes "distinct (zoomSteps e)" "i + 1 < length (zoomSteps e)" "scale s = zoomSteps e ! i"
  shows "scale (key_zoomIn e s) = zoomSteps e ! (i + 1)"
proof -
  have "indexOf (zoomSteps e) (scale s) = int i"
    using assms indexOf_nth [of "zoomSteps e" i] by simp
  then show ?thesis
    using assms(2) by (simp add: key_zoomIn_def Let_def nat_add_distrib)
qed

lemma key_zoomOut_member:
  assumes "distinct (zoomSteps e)" "i < length (zoomSteps e)" "0 < i" "scale s = zoomSteps e ! i"
  shows "scale (key_zoomOut e s) = zoomSteps e ! (i - 1)"
proof -
  have "indexOf (zoomSteps e) (scale s) = int i"
    using assms indexOf_nth [of "zoomSteps e" i] by simp
  then show ?thesis
    using assms(3) by (simp add: key_zoomOut_def Let_def nat_diff_distrib')
qed

lemma key_zoomIn_top:
  assumes "distinct (zoomSteps e)" "zoomSteps e \<noteq> []" "scale s = last (zoomSteps e)"
  shows "key_zoomIn e s = s"
proof -
  have "indexOf (zoomSteps e) (scale s) = int (length (zoomSteps e) - 1)"
    using assms indexOf_nth [of "zoomSteps e" "length (zoomSteps e) - 1"]
    by (simp add: last_conv_nth)
  then show ?thesis
    using assms(2) by (simp add: key_zoomIn_def Let_def of_nat_diff Suc_leI)
qed

lemma key_zoomOut_bottom:
  assumes "zoomSteps e \<noteq> []" "scale s = hd (zoomSteps e)"
  shows "key_zoomOut e s = s"
proof -
  have "indexOf (zoomSteps e) (scale s) = 0"
    using assms by (cases "zoomSteps e") simp_all
  then show ?thesis
    by (simp add: key_zoomOut_def)
qed

text \<open>
  C3, as the script has it. For every current scale that is not a member of the zoom
  step set, the keys \<open>+\<close>, \<open>=\<close> and \<open>-\<close> do nothing: \<open>indexOf\<close> yields \<open>-1\<close>, both
  guards fail, and the state (scale, dropdown, render tasks) stays as it is.
\<close>

theorem stepping_off_grid_is_noop:
  assumes "scale s \<notin> set (zoomSteps e)"
    and "key ev = ''+'' \<or> key ev = ''='' \<or> key ev = ''-''"
  shows "keydown e ev s = s"
proof -
  have "key_zoomIn e s = s" "key_zoomOut e s = s"
    using indexOf_notin [OF assms(1)] by (simp_all add: key_zoomIn_def key_zoomOut_def)
  then show ?thesis
    using assms(2) by (auto simp: keydown_plus keydown_minus)
qed

theorem stepping_off_grid_is_noop_witness:
  "scale (demo_loaded\<lparr>scale := 1.65\<rparr>) \<notin> set (zoomSteps demo_env)
   \<and> keydown demo_env (plain ''+'') (demo_loaded\<lparr>scale := 1.65\<rparr>) = demo_loaded\<lparr>scale := 1.65\<rparr>
   \<and> keydown demo_env (plain ''-'') (demo_loaded\<lparr>scale := 1.65\<rparr>) = demo_loaded\<lparr>scale := 1.65\<rparr>"
proof -
  have a: "scale (demo_loaded\<lparr>scale := 1.65\<rparr>) \<notin> set (zoomSteps demo_env)"
    by (simp add: demo_env_def)
  show ?thesis
    using a stepping_off_grid_is_noop [OF a, of "plain ''+''"]
      stepping_off_grid_is_noop [OF a, of "plain ''-''"]
    by (simp add: plain_def)
qed

text \<open>
  The claim C3 as stated fails. After a pinch from 150 percent the scale is 1.65, which
  is no zoom step; the nearest steps are 1.5 below and 2 above. The key \<open>+\<close> leaves the
  scale at 1.65 instead of moving it to 2, and the key \<open>-\<close> leaves it at 1.65 instead of
  moving it to 1.5.
\<close>

theorem stepping_off_grid_counterexample:
  "scale (run demo_env [TouchStart [(100, 100), (200, 100)], TouchMove [(100, 100), (220, 100)]]
            demo_loaded) = 1.65
   \<and> scale (run demo_env [TouchStart [(100, 100), (200, 100)], TouchMove [(100, 100), (220, 100)],
                          KeyDown (plain ''+'')] demo_loaded) = 1.65
   \<and> scale (run demo_env [TouchStart [(100, 100), (200, 100)], TouchMove [(100, 100), (220, 100)],
                          KeyDown (plain ''-'')] demo_loaded) = 1.65
   \<and> zoomSteps demo_env = [0.5, 0.75, 1, 1.5, 2, 3]"
  by (simp add: demo_defs handler_defs Let_def)

text \<open>
  C4. A zoom step set that is ascending and duplicate-free is strictly ascending. For
  every scale equal to a member other than the top one (every interior member, and the
  bottom one as well), stepping up and then down returns the scale to its value. At the
  top member stepping up changes nothing, at the bottom member stepping down changes
  nothing.
\<close>

theorem zoom_step_roundtrip:
  assumes "zoom_step_set (zoomSteps e)"
    and "key up = ''+'' \<or> key up = ''=''" and "key down = ''-''"
  shows "sorted_wrt (<) (zoomSteps e) \<and> distinct (zoomSteps e)
    \<and> (\<forall>i. i + 1 < length (zoomSteps e) \<and> scale s = zoomSteps e ! i \<longrightarrow>
          scale (keydown e down (keydown e up s)) = scale s)
    \<and> (zoomSteps e \<noteq> [] \<and> scale s = last (zoomSteps e) \<longrightarrow> keydown e up s = s)
    \<and> (zoomSteps e \<noteq> [] \<and> scale s = hd (zoomSteps e) \<longrightarrow> keydown e down s = s)"
proof -
  from assms(1) have srt: "sorted (zoomSteps e)" and dst: "distinct (zoomSteps e)"
    by (simp_all add: zoom_step_set_def)
  have strict: "sorted_wrt (<) (zoomSteps e)"
    using srt dst by (simp add: strict_sorted_iff)
  have round: "scale (keydown e down (keydown e up s)) = scale s"
    if i: "i + 1 < length (zoomSteps e)" "scale s = zoomSteps e ! i" for i
  proof (cases "pdfDoc s")
    case None
    then show ?thesis
      using assms(2,3) by (simp add: keydown_plus keydown_minus)
  next
    case (Some d)
    have up: "scale (key_zoomIn e s) = zoomSteps e ! (i + 1)"
      by (rule key_zoomIn_member [OF dst i])
    have "scale (key_zoomOut e (key_zoomIn e s)) = zoomSteps e ! (i + 1 - 1)"
      by (rule key_zoomOut_member [OF dst i(1) _ up]) simp
    then show ?thesis
      using Some i(2) assms(2,3) by (simp add: keydown_plus keydown_minus)
  qed
  have top: "keydown e up s = s" if "zoomSteps e \<noteq> []" "scale s = last (zoomSteps e)"
    using key_zoomIn_top [OF dst that] assms(2) by (simp add: keydown_plus)
  have bottom: "keydown e down s = s" if "zoomSteps e \<noteq> []" "scale s = hd (zoomSteps e)"
    using key_zoomOut_bottom [OF that] assms(3) by (simp add: keydown_minus)
  show ?thesis
    using strict dst round top bottom by blast
qed

theorem zoom_step_roundtrip_witness:
  "zoom_step_set (zoomSteps demo_env)
   \<and> key (plain ''+'') = ''+'' \<and> key (plain ''-'') = ''-''
   \<and> 3 + 1 < length (zoomSteps demo_env) \<and> scale demo_loaded = zoomSteps demo_env ! 3
   \<and> scale (keydown demo_env (plain ''-'') (keydown demo_env (plain ''+'') demo_loaded)) = 1.5
   \<and> scale (demo_loaded\<lparr>scale := 3\<rparr>) = last (zoomSteps demo_env)
   \<and> keydown demo_env (plain ''+'') (demo_loaded\<lparr>scale := 3\<rparr>) = demo_loaded\<lparr>scale := 3\<rparr>
   \<and> scale (demo_loaded\<lparr>scale := 0.5\<rparr>) = hd (zoomSteps demo_env)
   \<and> keydown demo_env (plain ''-'') (demo_loaded\<lparr>scale := 0.5\<rparr>) = demo_loaded\<lparr>scale := 0.5\<rparr>"
proof -
  have z: "zoom_step_set (zoomSteps demo_env)"
    by (simp add: zoom_step_set_def demo_env_def)
  have k: "key (plain ''+'') = ''+'' \<or> key (plain ''+'') = ''=''" "key (plain ''-'') = ''-''"
    by (simp_all add: plain_def)
  have i: "3 + 1 < length (zoomSteps demo_env)" "scale demo_loaded = zoomSteps demo_env ! 3"
    by (simp_all add: demo_defs handler_defs Let_def)
  have t: "zoomSteps demo_env \<noteq> []" "scale (demo_loaded\<lparr>scale := 3\<rparr>) = last (zoomSteps demo_env)"
    "scale (demo_loaded\<lparr>scale := 0.5\<rparr>) = hd (zoomSteps demo_env)"
    by (simp_all add: demo_env_def)
  have s: "scale demo_loaded = 1.5"
    by (simp add: demo_defs handler_defs Let_def)
  have r: "scale (keydown demo_env (plain ''-'') (keydown demo_env (plain ''+'') demo_loaded))
      = scale demo_loaded"
    using zoom_step_roundtrip [OF z k, of demo_loaded] i by blast
  have tp: "keydown demo_env (plain ''+'') (demo_loaded\<lparr>scale := 3\<rparr>) = demo_loaded\<lparr>scale := 3\<rparr>"
    using zoom_step_roundtrip [OF z k, of "demo_loaded\<lparr>scale := 3\<rparr>"] t by blast
  have bt: "keydown demo_env (plain ''-'') (demo_loaded\<lparr>scale := 0.5\<rparr>) = demo_loaded\<lparr>scale := 0.5\<rparr>"
    using zoom_step_roundtrip [OF z k, of "demo_loaded\<lparr>scale := 0.5\<rparr>"] t by blast
  have k': "key (plain ''+'') = ''+''"
    by (simp add: plain_def)
  show ?thesis
    using z k' k(2) i r s tp bt t by simp
qed

text \<open>Facts for the pinch.\<close>

lemma pinch_zoom_fields:
  "scale (pinch_zoom v b s) = v"
  "touchStartDist (pinch_zoom v b s) = Some b"
  "pdfDoc (pinch_zoom v b s) = pdfDoc s"
  "pageNum (pinch_zoom v b s) = pageNum s"
  "touchStartX (pinch_zoom v b s) = touchStartX s"
  "pdfDoc s = Some d \<Longrightarrow>
   tasks (pinch_zoom v b s) = tasks s @ [\<lparr>t_doc = d, t_num = pageNum s, t_stage = AwaitPage\<rparr>]"
  by (simp_all add: pinch_zoom_def Let_def renderPage_tasks)

lemma touchmove_in:
  assumes "touchStartDist s = Some b" "b \<noteq> 0" "length ts = 2" "touch_dist ts / b > 1.1"
  shows "touchmove ts s = pinch_zoom (scale s * 1.1) (touch_dist ts) s"
  using assms by (simp add: touchmove_def Let_def)

lemma touchmove_out:
  assumes "touchStartDist s = Some b" "b \<noteq> 0" "length ts = 2" "touch_dist ts / b < 0.9"
  shows "touchmove ts s = pinch_zoom (scale s / 1.1) (touch_dist ts) s"
  using assms by (simp add: touchmove_def Let_def)

lemma touchmove_keep:
  assumes "touchStartDist s = Some b" "length ts = 2"
    "\<not> touch_dist ts / b > 1.1" "\<not> touch_dist ts / b < 0.9"
  shows "touchmove ts s = s"
  using assms by (simp add: touchmove_def Let_def)

lemma ratchet_run:
  assumes "pdfDoc s = Some d" "touchStartDist s = Some b" "0 < b"
    "\<forall>ts\<in>set tss. length ts = 2" "sorted (b # map touch_dist tss)"
  shows "scale (run e (map TouchMove tss) s) = scale s * 1.1 ^ crossings b (map touch_dist tss)
       \<and> length (tasks (run e (map TouchMove tss) s))
           = length (tasks s) + crossings b (map touch_dist tss)
       \<and> touchStartDist (run e (map TouchMove tss) s)
           = Some (last_reset b (map touch_dist tss))"
  using assms
proof (induction tss arbitrary: s b)
  case Nil
  then show ?case by simp
next
  case (Cons ts tss)
  let ?d = "touch_dist ts"
  from Cons.prems have len: "length ts = 2" and rest: "\<forall>ts\<in>set tss. length ts = 2"
    and le: "b \<le> ?d" and srt: "sorted (?d # map touch_dist tss)"
    by auto
  have dpos: "0 < ?d"
    using le Cons.prems(3) by simp
  have ge: "\<not> ?d / b < 0.9"
    using le Cons.prems(3) by (simp add: field_simps)
  show ?case
  proof (cases "?d / b > 1.1")
    case True
    let ?s1 = "pinch_zoom (scale s * 1.1) ?d s"
    have st: "step e (TouchMove ts) s = ?s1"
      using touchmove_in [OF Cons.prems(2) _ len True] Cons.prems(3) by (simp add: step_def)
    have "pdfDoc ?s1 = Some d" "touchStartDist ?s1 = Some ?d"
      using Cons.prems(1) by (simp_all add: pinch_zoom_fields)
    from Cons.IH [OF this dpos rest srt] show ?thesis
      using True st Cons.prems(1) by (simp add: pinch_zoom_fields)
  next
    case False
    have st: "step e (TouchMove ts) s = s"
      using touchmove_keep [OF Cons.prems(2) len False ge] by (simp add: step_def)
    have srt': "sorted (b # map touch_dist tss)"
      using Cons.prems(5) by auto
    from Cons.IH [OF Cons.prems(1,2,3) rest srt'] show ?thesis
      using False st by simp
  qed
qed

text \<open>
  C5. In a pinch session on a loaded document with baseline \<open>b > 0\<close>, along every
  sequence of two-touch move events whose distances do not decrease from \<open>b\<close> on, the
  scale ends multiplied by 1.1 once for every time the ratio of the current distance to
  the baseline of the last reset exceeds 1.1, exactly that many renders are requested,
  and the baseline ends at the distance of the last reset: the count is that of the
  crossings, not that of the events. For a single move event, a ratio above 1.1
  multiplies the scale by 1.1, a ratio below 0.9 divides it by 1.1, and either resets
  the baseline to the current distance and requests one render.
\<close>

theorem pinch_ratchet:
  assumes "pdfDoc s = Some d" "touchStartDist s = Some b" "0 < b"
    and "\<forall>ts\<in>set tss. length ts = 2"
  shows "(sorted (b # map touch_dist tss) \<longrightarrow>
            scale (run e (map TouchMove tss) s)
              = scale s * 1.1 ^ crossings b (map touch_dist tss)
          \<and> length (tasks (run e (map TouchMove tss) s))
              = length (tasks s) + crossings b (map touch_dist tss)
          \<and> touchStartDist (run e (map TouchMove tss) s)
              = Some (last_reset b (map touch_dist tss)))
    \<and> (\<forall>ts. length ts = 2 \<and> touch_dist ts / b > 1.1 \<longrightarrow>
          scale (touchmove ts s) = scale s * 1.1
        \<and> touchStartDist (touchmove ts s) = Some (touch_dist ts)
        \<and> tasks (touchmove ts s)
            = tasks s @ [\<lparr>t_doc = d, t_num = pageNum s, t_stage = AwaitPage\<rparr>])
    \<and> (\<forall>ts. length ts = 2 \<and> touch_dist ts / b < 0.9 \<longrightarrow>
          scale (touchmove ts s) = scale s / 1.1
        \<and> touchStartDist (touchmove ts s) = Some (touch_dist ts)
        \<and> tasks (touchmove ts s)
            = tasks s @ [\<lparr>t_doc = d, t_num = pageNum s, t_stage = AwaitPage\<rparr>])"
proof -
  have nz: "b \<noteq> 0"
    using assms(3) by simp
  have zin: "scale (touchmove ts s) = scale s * 1.1
      \<and> touchStartDist (touchmove ts s) = Some (touch_dist ts)
      \<and> tasks (touchmove ts s) = tasks s @ [\<lparr>t_doc = d, t_num = pageNum s, t_stage = AwaitPage\<rparr>]"
    if "length ts = 2" "touch_dist ts / b > 1.1" for ts
    using touchmove_in [OF assms(2) nz that] assms(1) by (simp add: pinch_zoom_fields)
  have zout: "scale (touchmove ts s) = scale s / 1.1
      \<and> touchStartDist (touchmove ts s) = Some (touch_dist ts)
      \<and> tasks (touchmove ts s) = tasks s @ [\<lparr>t_doc = d, t_num = pageNum s, t_stage = AwaitPage\<rparr>]"
    if "length ts = 2" "touch_dist ts / b < 0.9" for ts
    using touchmove_out [OF assms(2) nz that] assms(1) by (simp add: pinch_zoom_fields)
  show ?thesis
    using ratchet_run [OF assms(1,2,3,4), of e] zin zout by blast
qed

theorem pinch_ratchet_witness:
  "pdfDoc demo_pinch = Some demo_doc \<and> touchStartDist demo_pinch = Some 100 \<and> (0::real) < 100
   \<and> map length demo_moves = [2, 2, 2]
   \<and> sorted (100 # map touch_dist demo_moves)
   \<and> length demo_moves = 3 \<and> crossings 100 (map touch_dist demo_moves) = 1
   \<and> scale demo_pinch = 1.5
   \<and> scale (run demo_env (map TouchMove demo_moves) demo_pinch) = 1.5 * 1.1
   \<and> length (tasks (run demo_env (map TouchMove demo_moves) demo_pinch))
       = length (tasks demo_pinch) + 1
   \<and> touch_dist [(100, 100), (180, 100)] / 100 < 0.9
   \<and> scale (touchmove [(100, 100), (180, 100)] demo_pinch) = 1.5 / 1.1"
proof -
  have a: "pdfDoc demo_pinch = Some demo_doc" "touchStartDist demo_pinch = Some 100"
    "scale demo_pinch = 1.5"
    by (simp_all add: demo_defs handler_defs Let_def)
  have b: "(0::real) < 100"
    by simp
  have c: "\<forall>ts\<in>set demo_moves. length ts = 2"
    by (simp add: demo_moves_def)
  have m: "map touch_dist demo_moves = [105, 115, 120]"
    by (simp add: demo_moves_def touch_dist_def)
  have srt: "sorted (100 # map touch_dist demo_moves)"
    by (simp add: m)
  have n: "length demo_moves = 3" "crossings 100 (map touch_dist demo_moves) = 1"
    by (simp_all add: m) (simp add: demo_moves_def)
  have o: "length [(100::real, 100::real), (180, 100)] = 2
      \<and> touch_dist [(100, 100), (180, 100)] / 100 < 0.9"
    by (simp add: touch_dist_def)
  from pinch_ratchet [OF a(1,2) b c, of demo_env] srt o
  have "scale (run demo_env (map TouchMove demo_moves) demo_pinch)
          = scale demo_pinch * 1.1 ^ crossings 100 (map touch_dist demo_moves)"
    and "length (tasks (run demo_env (map TouchMove demo_moves) demo_pinch))
          = length (tasks demo_pinch) + crossings 100 (map touch_dist demo_moves)"
    and "scale (touchmove [(100, 100), (180, 100)] demo_pinch) = scale demo_pinch / 1.1"
    by blast+
  then show ?thesis
    using a b srt n o by (simp add: demo_moves_def)
qed

text \<open>
  C6. A single-touch session on a loaded document ends with one changed touch, and
  \<open>\<Delta>x\<close> is the end position minus the start position. If \<open>\<Delta>x > 50\<close> and the page is
  not the first, the page index goes down by one and exactly one render, of the
  previous page, is requested. If \<open>\<Delta>x < -50\<close> and the page is not the last, the page
  index goes up by one and exactly one render, of the next page, is requested. If
  \<open>|\<Delta>x| \<le> 50\<close>, nothing but the end of the session happens. In each case the two
  touch variables are cleared.
\<close>

theorem swipe_intents:
  assumes "touchStartX s = Some x0" "pdfDoc s = Some d"
  shows "(fst c - x0 > 50 \<and> pageNum s > 1 \<longrightarrow>
            touchend [c] s =
              Inr (s\<lparr>pageNum := pageNum s - 1,
                     tasks := tasks s @ [\<lparr>t_doc = d, t_num = pageNum s - 1, t_stage = AwaitPage\<rparr>],
                     touchStartX := None, touchStartDist := None\<rparr>))
    \<and> (fst c - x0 < - 50 \<and> pageNum s < numPages d \<longrightarrow>
            touchend [c] s =
              Inr (s\<lparr>pageNum := pageNum s + 1,
                     tasks := tasks s @ [\<lparr>t_doc = d, t_num = pageNum s + 1, t_stage = AwaitPage\<rparr>],
                     touchStartX := None, touchStartDist := None\<rparr>))
    \<and> (\<bar>fst c - x0\<bar> \<le> 50 \<longrightarrow>
            touchend [c] s = Inr (s\<lparr>touchStartX := None, touchStartDist := None\<rparr>))"
  using assms by (simp add: touchend_def touch_reset_def renderPage_def Let_def)

theorem swipe_intents_witness:
  "touchStartX (demo_page3\<lparr>touchStartX := Some 100\<rparr>) = Some 100
   \<and> pdfDoc (demo_page3\<lparr>touchStartX := Some 100\<rparr>) = Some demo_doc
   \<and> pageNum (demo_page3\<lparr>touchStartX := Some 100\<rparr>) = 3 \<and> numPages demo_doc = 5
   \<and> (\<exists>s'. touchend [(160, 0)] (demo_page3\<lparr>touchStartX := Some 100\<rparr>) = Inr s'
          \<and> pageNum s' = 2 \<and> length (tasks s') = length (tasks demo_page3) + 1)
   \<and> (\<exists>s'. touchend [(40, 0)] (demo_page3\<lparr>touchStartX := Some 100\<rparr>) = Inr s'
          \<and> pageNum s' = 4 \<and> length (tasks s') = length (tasks demo_page3) + 1)
   \<and> touchend [(150, 0)] (demo_page3\<lparr>touchStartX := Some 100\<rparr>)
       = Inr (demo_page3\<lparr>touchStartX := None, touchStartDist := None\<rparr>)"
proof -
  let ?s = "demo_page3\<lparr>touchStartX := Some 100\<rparr>"
  have a: "touchStartX ?s = Some 100"
    by simp
  have b: "pdfDoc ?s = Some demo_doc" "pageNum ?s = 3" "numPages demo_doc = 5"
    by (simp_all add: demo_defs handler_defs Let_def)
  have c: "fst (160::real, 0::real) - 100 > 50" "fst (40::real, 0::real) - 100 < - 50"
    "\<bar>fst (150::real, 0::real) - 100\<bar> \<le> 50"
    by simp_all
  have "touchend [(160, 0)] ?s =
      Inr (?s\<lparr>pageNum := pageNum ?s - 1,
              tasks := tasks ?s @ [\<lparr>t_doc = demo_doc, t_num = pageNum ?s - 1, t_stage = AwaitPage\<rparr>],
              touchStartX := None, touchStartDist := None\<rparr>)"
    using swipe_intents [OF a b(1), of "(160, 0)"] b c by simp
  moreover have "touchend [(40, 0)] ?s =
      Inr (?s\<lparr>pageNum := pageNum ?s + 1,
              tasks := tasks ?s @ [\<lparr>t_doc = demo_doc, t_num = pageNum ?s + 1, t_stage = AwaitPage\<rparr>],
              touchStartX := None, touchStartDist := None\<rparr>)"
    using swipe_intents [OF a b(1), of "(40, 0)"] b c by simp
  moreover have "touchend [(150, 0)] ?s = Inr (?s\<lparr>touchStartX := None, touchStartDist := None\<rparr>)"
    using swipe_intents [OF a b(1), of "(150, 0)"] c by simp
  ultimately show ?thesis
    using a b by simp
qed

text \<open>Facts for the touch session.\<close>

lemma touchend_clears:
  "touchend cs s = Inr s' \<Longrightarrow> touchStartX s' = None \<and> touchStartDist s' = None"
  by (auto simp: touchend_def touch_reset_def Let_def split: option.splits if_splits)

text \<open>
  C7, as the script has it. The two fields of a touch session are independent
  variables. A touch-start with one active touch sets the start position and leaves
  the pinch baseline as it was; a touch-start with two active touches sets the
  baseline and leaves the start position as it was; with any other number of touches
  nothing changes. Only a touch-end that completes clears both fields.
\<close>

theorem touchstart_keeps_other_field:
  "(length ts = 1 \<longrightarrow>
        touchstart ts s = s\<lparr>touchStartX := Some (fst (ts ! 0))\<rparr>
      \<and> touchStartDist (touchstart ts s) = touchStartDist s)
   \<and> (length ts = 2 \<longrightarrow>
        touchstart ts s = s\<lparr>touchStartDist := Some (touch_dist ts)\<rparr>
      \<and> touchStartX (touchstart ts s) = touchStartX s)
   \<and> (length ts \<noteq> 1 \<and> length ts \<noteq> 2 \<longrightarrow> touchstart ts s = s)
   \<and> (\<forall>cs s'. touchend cs s = Inr s' \<longrightarrow> touchStartX s' = None \<and> touchStartDist s' = None)"
  using touchend_clears [of _ s] by (simp add: touchstart_def)

theorem touchstart_keeps_other_field_witness:
  "length [(100::real, 100::real), (200, 100)] = 2
   \<and> touchStartX (demo_page3\<lparr>touchStartX := Some 100\<rparr>) = Some 100
   \<and> touchStartX (touchstart [(100, 100), (200, 100)] (demo_page3\<lparr>touchStartX := Some 100\<rparr>))
       = Some 100
   \<and> touchStartDist (touchstart [(100, 100), (200, 100)] (demo_page3\<lparr>touchStartX := Some 100\<rparr>))
       = Some 100
   \<and> length [(100::real, 100::real)] = 1
   \<and> touchStartX (touchstart [(100, 100)] demo_page3) = Some 100
   \<and> touchStartDist (touchstart [(100, 100)] demo_page3) = touchStartDist demo_page3
   \<and> touchend [(120, 100)] (demo_page3\<lparr>touchStartX := Some 100\<rparr>) = Inr (touch_reset demo_page3)
   \<and> touchStartX (touch_reset demo_page3) = None
   \<and> touchStartDist (touch_reset demo_page3) = None"
proof -
  let ?s = "demo_page3\<lparr>touchStartX := Some 100\<rparr>"
  have e: "touchend [(120, 100)] ?s = Inr (touch_reset demo_page3)"
    by (simp add: touchend_def touch_reset_def)
  have "touchStartX (touch_reset demo_page3) = None \<and> touchStartDist (touch_reset demo_page3) = None"
    using touchstart_keeps_other_field [of "[]" ?s] e by blast
  then show ?thesis
    using touchstart_keeps_other_field [of "[(100, 100), (200, 100)]" ?s]
      touchstart_keeps_other_field [of "[(100, 100)]" demo_page3] e
    by (simp add: touch_dist_def)
qed

text \<open>
  The claim C7 as stated fails. On page 3 a finger touches at \<open>x = 100\<close>, a second
  finger joins at \<open>x = 200\<close>, and the second finger is lifted where it is. After
  the second touch-start the start position of the first touch is still held, and the
  touch-end takes the distance between the two fingers for a swipe: the page index goes
  to 2 and a render of page 2 is requested.
\<close>

theorem pinch_then_swipe_counterexample:
  "pageNum demo_page3 = 3
   \<and> touchStartX (run demo_env [TouchStart [(100, 100)], TouchStart [(100, 100), (200, 100)]]
                     demo_page3) = Some 100
   \<and> touchStartDist (run demo_env [TouchStart [(100, 100)], TouchStart [(100, 100), (200, 100)]]
                        demo_page3) = Some 100
   \<and> pageNum (run demo_env [TouchStart [(100, 100)], TouchStart [(100, 100), (200, 100)],
                            TouchEnd [(200, 100)]] demo_page3) = 2
   \<and> length (tasks (run demo_env [TouchStart [(100, 100)], TouchStart [(100, 100), (200, 100)],
                                  TouchEnd [(200, 100)]] demo_page3))
       = length (tasks demo_page3) + 1"
  by (simp add: demo_defs handler_defs Let_def)

text \<open>Facts for the reload.\<close>

text \<open>
  In every state the script can reach from start-up, the array of a call that has
  resolved, the one a loaded document was decoded from, is detached.
\<close>

lemma loads_ok_cong:
  "loads_ok s \<Longrightarrow> pdfData s' = pdfData s \<Longrightarrow> heap s' = heap s \<Longrightarrow> loads s' = loads s \<Longrightarrow> loads_ok s'"
  by (simp add: loads_ok_def split: option.splits)

lemma loads_ok_loadPDF:
  "loads_ok s \<Longrightarrow> a < length (heap s) \<Longrightarrow> loads_ok (loadPDF a s)"
  by (simp add: loads_ok_def loadPDF_def split: option.splits)

lemma loads_ok_key_reload:
  assumes "loads_ok s"
  shows "loads_ok (key_reload s)"
proof (cases "pdfData s")
  case None
  then show ?thesis using assms by (simp add: key_reload_def)
next
  case (Some a)
  then have "a < length (heap s)"
    using assms by (simp add: loads_ok_def)
  then show ?thesis
    using Some assms by (simp add: key_reload_def loads_ok_loadPDF)
qed

lemma loads_ok_reader_onload: "loads_ok s \<Longrightarrow> loads_ok (reader_onload k s)"
  by (auto simp: loads_ok_def reader_onload_def loadPDF_def Let_def list_all_length nth_append
      split: option.splits)

lemma loads_ok_sent: "loads_ok s \<Longrightarrow> loads_ok (getDocument_sent k s)"
  by (auto simp: loads_ok_def getDocument_sent_def Let_def list_all_length nth_list_update
      split: option.splits)

lemma loads_ok_rejected: "loads_ok s \<Longrightarrow> loads_ok (getDocument_rejected k s)"
  by (auto simp: loads_ok_def getDocument_rejected_def Let_def list_all_length nth_list_update
      split: option.splits)

lemma loadPDF_then_frame [simp]:
  "pdfData (loadPDF_then keep d s) = pdfData s"
  "heap (loadPDF_then keep d s) = heap s"
  "loads (loadPDF_then keep d s) = loads s"
  by (simp_all add: loadPDF_then_def Let_def)

lemma loads_ok_resolved: "loads_ok s \<Longrightarrow> loads_ok (getDocument_resolved k d s)"
  by (auto simp: loads_ok_def getDocument_resolved_def Let_def list_all_length nth_list_update
      split: option.splits)

lemma loads_ok_keydown: "loads_ok s \<Longrightarrow> loads_ok (keydown e ev s)"
proof (rule keydown_cases)
  assume r: "loads_ok s"
  show "loads_ok s" by (rule r)
  show "loads_ok (key_reload s)" by (rule loads_ok_key_reload [OF r])
  show "loads_ok (s\<lparr>helpOverlay_shown := b\<rparr>)" for b
    by (rule loads_ok_cong [OF r]) simp_all
  show "loads_ok (s\<lparr>windowScroll := w\<rparr>)" for w
    by (rule loads_ok_cong [OF r]) simp_all
  show "loads_ok (key_nudge e ev s)"
    by (rule loads_ok_cong [OF r]) (simp_all add: key_nudge_def updateOverlays_def Let_def)
  show "loads_ok (key_zoomIn e s)"
    by (rule loads_ok_cong [OF r]) (simp_all add: key_zoomIn_def Let_def)
  show "loads_ok (key_zoomOut e s)"
    by (rule loads_ok_cong [OF r]) (simp_all add: key_zoomOut_def Let_def)
  show "loads_ok (key_prev s)"
    by (rule loads_ok_cong [OF r]) (simp_all add: key_prev_def)
  show "loads_ok (key_next d s)" for d
    by (rule loads_ok_cong [OF r]) (simp_all add: key_next_def)
qed

lemma loads_ok_step: "loads_ok s \<Longrightarrow> loads_ok (step e ev s)"
proof (cases ev)
  case (ReaderOnload k)
  assume "loads_ok s"
  then show ?thesis using ReaderOnload by (simp add: step_def loads_ok_reader_onload)
next
  case (GetDocumentSent k)
  assume "loads_ok s"
  then show ?thesis using GetDocumentSent by (simp add: step_def loads_ok_sent)
next
  case (GetDocumentResolved k d)
  assume "loads_ok s"
  then show ?thesis using GetDocumentResolved by (simp add: step_def loads_ok_resolved)
next
  case (GetDocumentRejected k)
  assume "loads_ok s"
  then show ?thesis using GetDocumentRejected by (simp add: step_def loads_ok_rejected)
next
  case (KeyDown ke)
  assume "loads_ok s"
  then show ?thesis using KeyDown by (simp add: step_def loads_ok_keydown)
qed (auto simp: step_def loads_ok_def fileInput_change_def canvas_drop_def
      renderPage_resume1_def renderPage_resume2_def zoomSelect_change_def mousemove_def
      updateOverlays_def clearOverlays_def prevBtn_click_def nextBtn_click_def
      touchstart_def touchmove_def touchend_def touch_reset_def pinch_zoom_def Let_def
      split: option.splits stage.splits)

lemma loads_ok_run: "loads_ok s \<Longrightarrow> loads_ok (run e evs s)"
  by (induction evs arbitrary: s) (simp_all add: loads_ok_step)

lemma loads_ok_initial: "loads_ok (initial z keep)"
  by (simp add: loads_ok_def initial_def)

lemma decoded_buffer_detached:
  assumes "k < length (loads (run e evs (initial z keep)))"
    and "loads (run e evs (initial z keep)) ! k = (kp, a, Resolved)"
  shows "heap (run e evs (initial z keep)) ! a = []"
  using loads_ok_run [OF loads_ok_initial, of e evs z keep] assms
  by (auto simp: loads_ok_def list_all_length)





text \<open>
  C9, as the script has it. There is no staleness check. When the page fetch of a
  render task settles, both canvases are resized for that task's page at the scale of
  that moment, whatever has been requested since. When its rasterisation settles, its
  page is what the canvas holds and the task is done, whatever the current page index
  is and however many later tasks exist; the page indicator is written from the page
  index of that moment. Results are applied in the order in which they settle.
\<close>

theorem render_commits_unchecked:
  assumes "k < length (tasks s)" "pdfDoc s = Some d"
  shows "(\<forall>vs. t_stage (tasks s ! k) = AwaitRender vs \<longrightarrow>
            canvas_content (renderPage_resume2 k s) = Some (t_num (tasks s ! k), vs)
          \<and> pageIndicator (renderPage_resume2 k s) = Some (pageNum s, numPages d)
          \<and> t_stage (tasks (renderPage_resume2 k s) ! k) = Done)
    \<and> (\<forall>p. t_stage (tasks s ! k) = AwaitPage \<and> getPage (t_doc (tasks s ! k)) (t_num (tasks s ! k)) = Some p \<longrightarrow>
            canvas_css (renderPage_resume1 e k s) = getViewport p (scale s)
          \<and> canvas_buf (renderPage_resume1 e k s)
              = (Math_round (fst (getViewport p (scale s)) * DPR e),
                 Math_round (snd (getViewport p (scale s)) * DPR e))
          \<and> overlay_buf (renderPage_resume1 e k s) = canvas_buf (renderPage_resume1 e k s)
          \<and> canvas_content (renderPage_resume1 e k s) = None
          \<and> t_stage (tasks (renderPage_resume1 e k s) ! k) = AwaitRender (scale s))"
  using assms by (simp add: renderPage_resume2_def renderPage_resume1_def Let_def)

theorem render_commits_unchecked_witness:
  "1 < length (tasks (run demo_env [NextClick, NextClick, GetPageSettled 2, RenderSettled 2,
                                    GetPageSettled 1] demo_loaded))
   \<and> pdfDoc (run demo_env [NextClick, NextClick, GetPageSettled 2, RenderSettled 2,
                           GetPageSettled 1] demo_loaded) = Some demo_doc
   \<and> t_stage (tasks (run demo_env [NextClick, NextClick, GetPageSettled 2, RenderSettled 2,
                                   GetPageSettled 1] demo_loaded) ! 1) = AwaitRender 1.5
   \<and> t_num (tasks (run demo_env [NextClick, NextClick, GetPageSettled 2, RenderSettled 2,
                                 GetPageSettled 1] demo_loaded) ! 1) = 2
   \<and> pageNum (run demo_env [NextClick, NextClick, GetPageSettled 2, RenderSettled 2,
                            GetPageSettled 1] demo_loaded) = 3
   \<and> canvas_content (renderPage_resume2 1
        (run demo_env [NextClick, NextClick, GetPageSettled 2, RenderSettled 2,
                       GetPageSettled 1] demo_loaded)) = Some (2, 1.5)
   \<and> pageIndicator (renderPage_resume2 1
        (run demo_env [NextClick, NextClick, GetPageSettled 2, RenderSettled 2,
                       GetPageSettled 1] demo_loaded)) = Some (3, 5)
   \<and> t_stage (tasks (run demo_env [NextClick, ZoomSelectChange 2] demo_loaded) ! 1) = AwaitPage
   \<and> t_num (tasks (run demo_env [NextClick, ZoomSelectChange 2] demo_loaded) ! 1) = 2
   \<and> getPage demo_doc 2 = Some (595, 842)
   \<and> canvas_css (renderPage_resume1 demo_env 1
        (run demo_env [NextClick, ZoomSelectChange 2] demo_loaded)) = (1190, 1684)
   \<and> canvas_buf (renderPage_resume1 demo_env 1
        (run demo_env [NextClick, ZoomSelectChange 2] demo_loaded)) = (2380, 3368)"
proof -
  let ?s = "run demo_env [NextClick, NextClick, GetPageSettled 2, RenderSettled 2,
                          GetPageSettled 1] demo_loaded"
  let ?r = "run demo_env [NextClick, ZoomSelectChange 2] demo_loaded"
  have a: "1 < length (tasks ?s)" "pdfDoc ?s = Some demo_doc"
    by (simp_all add: demo_defs handler_defs Let_def)
  have b: "t_stage (tasks ?s ! 1) = AwaitRender 1.5" "t_num (tasks ?s ! 1) = 2" "pageNum ?s = 3"
    "numPages demo_doc = 5"
    by (simp_all add: demo_defs handler_defs Let_def)
  have c: "1 < length (tasks ?r)" "pdfDoc ?r = Some demo_doc"
    by (simp_all add: demo_defs handler_defs zoomSelect_change_def Let_def)
  have d: "t_stage (tasks ?r ! 1) = AwaitPage" "t_num (tasks ?r ! 1) = 2"
    "t_doc (tasks ?r ! 1) = demo_doc" "scale ?r = 2"
    by (simp_all add: demo_defs handler_defs zoomSelect_change_def Let_def)
  have g: "getPage demo_doc 2 = Some (595, 842)"
    by (simp add: getPage_def numPages_def demo_doc_def)
  from render_commits_unchecked [OF a, of demo_env] b(1)
  have "canvas_content (renderPage_resume2 1 ?s) = Some (t_num (tasks ?s ! 1), 1.5)"
    and "pageIndicator (renderPage_resume2 1 ?s) = Some (pageNum ?s, numPages demo_doc)"
    by blast+
  moreover from render_commits_unchecked [OF c, of demo_env] d g
  have "canvas_css (renderPage_resume1 demo_env 1 ?r) = getViewport (595, 842) (scale ?r)"
    and "canvas_buf (renderPage_resume1 demo_env 1 ?r)
          = (Math_round (fst (getViewport (595, 842) (scale ?r)) * DPR demo_env),
             Math_round (snd (getViewport (595, 842) (scale ?r)) * DPR demo_env))"
    by simp_all
  ultimately show ?thesis
    using a b d g by (simp add: getViewport_def Math_round_def demo_env_def)
qed

text \<open>
  The claim C9 as stated fails. Page 1 of the five-page document is shown and the next
  button is pressed twice, which requests a render of page 2 and then, while that one
  is pending, a render of page 3. The request for page 3 settles first and is drawn;
  then the request for page 2 settles: the canvas is resized and page 2 is drawn over
  it. The superseded request is applied last, and the canvas holds page 2 while the page
  index and the indicator say 3.
\<close>

theorem stale_render_counterexample:
  "map t_num (tasks (run demo_env [NextClick, NextClick] demo_loaded)) = [1, 2, 3]
   \<and> map t_stage (tasks (run demo_env [NextClick, NextClick] demo_loaded))
       = [Done, AwaitPage, AwaitPage]
   \<and> canvas_content (run demo_env [NextClick, NextClick, GetPageSettled 2, RenderSettled 2]
                        demo_loaded) = Some (3, 1.5)
   \<and> canvas_content (run demo_env [NextClick, NextClick, GetPageSettled 2, RenderSettled 2,
                                   GetPageSettled 1, RenderSettled 1] demo_loaded) = Some (2, 1.5)
   \<and> pageNum (run demo_env [NextClick, NextClick, GetPageSettled 2, RenderSettled 2,
                            GetPageSettled 1, RenderSettled 1] demo_loaded) = 3
   \<and> pageIndicator (run demo_env [NextClick, NextClick, GetPageSettled 2, RenderSettled 2,
                                  GetPageSettled 1, RenderSettled 1] demo_loaded) = Some (3, 5)"
  by (simp add: demo_defs handler_defs Let_def)

text \<open>
  C10 fails on the script. Before any document is loaded the handler of the next
  button reads \<open>pdfDoc.numPages\<close> of the absent handle and throws, and so does the
  touch-end handler on a swipe to the left. The handler of the same button in the
  earlier variants tests the handle first and returns.
\<close>

theorem next_without_document_throws:
  "pdfDoc (initial 1.5 False) = None
   \<and> nextBtn_click (initial 1.5 False) = Inl TypeError
   \<and> handle demo_env NextClick (initial 1.5 False) = Inl TypeError
   \<and> touchend [(40, 0)] (touchstart [(100, 0)] (initial 1.5 False)) = Inl TypeError
   \<and> nextBtn_click_guarded (initial 1.5 False) = Inr (initial 1.5 False)
   \<and> prevBtn_click (initial 1.5 False) = initial 1.5 False"
  by (simp add: initial_def nextBtn_click_def nextBtn_click_guarded_def prevBtn_click_def
      touchend_def touchstart_def Let_def)

end
